theory Spec2Isabelle
  imports Main
begin

section \<open>Constants\<close>

text \<open>
  The compile-time constants of the idle watcher. The event and axis codes come from
  \<^verbatim>\<open>linux/input-event-codes.h\<close>, which the source includes.
\<close>

definition DEFAULT_IDLE_S :: int where "DEFAULT_IDLE_S = 900"
definition DEFAULT_EXTENDED_S :: int where "DEFAULT_EXTENDED_S = 3600"
definition AXIS_DZ_MIN :: int where "AXIS_DZ_MIN = 64"
definition AXIS_DZ_BADSPAN :: int where "AXIS_DZ_BADSPAN = 128"
definition DEBOUNCE_MS :: int where "DEBOUNCE_MS = 3000"

definition HOOKS_ROOT :: string where "HOOKS_ROOT = ''/etc/idlewatcher''"
definition INPUT_DIR :: string where "INPUT_DIR = ''/dev/input''"

definition EV_SYN :: nat where "EV_SYN = 0"
definition EV_KEY :: nat where "EV_KEY = 1"
definition EV_REL :: nat where "EV_REL = 2"
definition EV_ABS :: nat where "EV_ABS = 3"
definition ABS_MAX :: nat where "ABS_MAX = 63"
definition ABS_HAT0X :: nat where "ABS_HAT0X = 16"
definition ABS_HAT3Y :: nat where "ABS_HAT3Y = 23"

definition INT_MAX :: int where "INT_MAX = 2147483647"
definition LONG_MAX :: int where "LONG_MAX = 9223372036854775807"

section \<open>Types and globals\<close>

datatype State = ACTIVE | IDLE | EXTENDED

text \<open>
  \<^verbatim>\<open>struct Dev\<close>. The five arrays have \<open>ABS_MAX + 1\<close> cells; they are functions of the
  axis code here, and every access with a code above \<open>ABS_MAX\<close> is written out where
  it happens (the source does not check the index).
\<close>

record Dev =
  fd :: int
  path :: string
  abs_last :: "nat \<Rightarrow> int"
  abs_seen :: "nat \<Rightarrow> bool"
  abs_min :: "nat \<Rightarrow> int"
  abs_max :: "nat \<Rightarrow> int"
  abs_dz :: "nat \<Rightarrow> int"

text \<open>
  What the process does to the outside, in the order it does it: the state file is
  rewritten, a hook folder is run with one argument, the timer is set
  (seconds, nanoseconds; both zero disarm it), a descriptor is subscribed to or
  withdrawn from the epoll set, a descriptor is closed.
\<close>

datatype effect =
    WriteState int
  | RunFolder string string
  | ArmTimer int int
  | EpollAdd int
  | EpollDel int
  | Close int

text \<open>
  \<^verbatim>\<open>struct Runtime\<close> (the global \<open>RT\<close>) with the global \<open>HOOKS_MIRROR\<close>, the trace of
  effects, and the monotonic clock: \<open>clock w k\<close> is what the \<open>k\<close>-th call of
  \<open>now_ms()\<close> of the run returns, and \<open>nreads\<close> counts the calls made so far.
  Times are 64-bit milliseconds in the source; they are integers here, a monotonic
  clock being far from the 64-bit bounds.
\<close>

record world =
  epfd :: int
  tfd :: int
  ifd :: int
  devices :: "Dev list"
  last_activity_ms :: int
  last_pulse_ms :: int
  state :: State
  idle_s :: int
  extended_s :: int
  HOOKS_MIRROR :: string
  clock :: "nat \<Rightarrow> int"
  nreads :: nat
  effects :: "effect list"

section \<open>Helpers\<close>

definition is_hat_abs :: "nat \<Rightarrow> bool" where
  "is_hat_abs code \<longleftrightarrow> code \<ge> ABS_HAT0X \<and> code \<le> ABS_HAT3Y"

definition now_ms :: "world \<Rightarrow> int \<times> world" where
  "now_ms w = (clock w (nreads w), w\<lparr>nreads := Suc (nreads w)\<rparr>)"

definition emit :: "effect \<Rightarrow> world \<Rightarrow> world" where
  "emit e w = w\<lparr>effects := effects w @ [e]\<rparr>"

section \<open>Hooks and state file\<close>

text \<open>
  \<open>write_state\<close> rewrites the state file with 1 or 0 (the trace records the attempt;
  the source goes on silently when \<open>fopen\<close> fails). \<open>run_folder\<close> forks one child per
  executable file of the folder and does not wait; the trace records the folder and the
  argument.
\<close>

definition write_state :: "State \<Rightarrow> world \<Rightarrow> world" where
  "write_state s w = emit (WriteState (if s = ACTIVE then 1 else 0)) w"

definition run_folder :: "string \<Rightarrow> string \<Rightarrow> world \<Rightarrow> world" where
  "run_folder dir arg w = emit (RunFolder dir arg) w"

definition run_hook_roots :: "string \<Rightarrow> string \<Rightarrow> world \<Rightarrow> world" where
  "run_hook_roots subdir arg w =
     (let w1 = run_folder (HOOKS_ROOT @ ''/'' @ subdir) arg w
      in if HOOKS_MIRROR w1 \<noteq> [] then run_folder (HOOKS_MIRROR w1 @ ''/'' @ subdir) arg w1
         else w1)"

section \<open>State machine and timers\<close>

definition effective_idle_ms :: "world \<Rightarrow> int \<times> world" where
  "effective_idle_ms w =
     (let (now, w1) = now_ms w;
          delta = now - last_activity_ms w1
      in (if delta > 0 then delta else 0, w1))"

text \<open>
  \<open>arm_timer_ms\<close> sets the timer to \<open>ms\<close> milliseconds, or disarms it when \<open>ms\<close> is not
  positive. A failing \<open>timerfd_settime\<close> ends the process in \<open>die\<close>; the operations below
  are those of a process that goes on.
\<close>

definition arm_timer_ms :: "int \<Rightarrow> world \<Rightarrow> world" where
  "arm_timer_ms ms w =
     (if ms > 0 then emit (ArmTimer (ms div 1000) ((ms mod 1000) * 1000000)) w
      else emit (ArmTimer 0 0) w)"

definition schedule_timer :: "world \<Rightarrow> world" where
  "schedule_timer w =
     (let idle_ms = idle_s w * 1000;
          ext_ms = extended_s w * 1000
      in if state w = EXTENDED then arm_timer_ms 0 w
         else
           (let (eff_since, w1) = effective_idle_ms w
            in if state w1 = ACTIVE then
                 (let remain = idle_ms - eff_since
                  in arm_timer_ms (if remain > 1 then remain else 1) w1)
               else if state w1 = IDLE then
                 (let remain = (idle_ms + ext_ms) - eff_since
                  in arm_timer_ms (if remain > 1 then remain else 1) w1)
               else arm_timer_ms 0 w1))"

definition enter :: "State \<Rightarrow> world \<Rightarrow> world" where
  "enter to w =
     (if to = state w then w
      else
        (let w1 = w\<lparr>state := to\<rparr>;
             w2 = write_state to w1
         in if to = ACTIVE then run_hook_roots ''active.d'' ''active'' w2
            else if to = IDLE then run_hook_roots ''idle.d'' ''idle'' w2
            else if to = EXTENDED then run_hook_roots ''extended.d'' ''extended'' w2
            else w2))"

definition on_activity :: "world \<Rightarrow> world" where
  "on_activity w =
     (let (now, w1) = now_ms w
      in if now - last_pulse_ms w1 < DEBOUNCE_MS then w1
         else
           (let w2 = w1\<lparr>last_pulse_ms := now, last_activity_ms := now\<rparr>;
                w3 = (if state w2 \<noteq> ACTIVE then enter ACTIVE w2 else w2)
            in schedule_timer w3))"

definition reevaluate :: "world \<Rightarrow> world" where
  "reevaluate w =
     (let (eff_since, w1) = effective_idle_ms w;
          idle_ms = idle_s w1 * 1000;
          ext_ms = extended_s w1 * 1000;
          w2 = (if state w1 = ACTIVE then
                  (if eff_since \<ge> idle_ms then enter IDLE w1 else w1)
                else if state w1 = IDLE then
                  (if eff_since < idle_ms then enter ACTIVE w1
                   else if eff_since \<ge> idle_ms + ext_ms then enter EXTENDED w1
                   else w1)
                else
                  (if eff_since < idle_ms then enter ACTIVE w1 else w1))
      in schedule_timer w2)"

section \<open>Config load\<close>

text \<open>
  \<open>strtol(s, nullptr, 10)\<close> of the C library: white space is skipped, then an optional
  sign, then the longest run of decimal digits; no digits give 0, and a value beyond
  the range of \<open>long\<close> (64 bits on the build targets) saturates.
\<close>

definition isspace_c :: "char \<Rightarrow> bool" where
  "isspace_c c \<longleftrightarrow> c \<in> {CHR '' '', CHR 0x09, CHR 0x0A, CHR 0x0B, CHR 0x0C, CHR 0x0D}"

definition isdigit_c :: "char \<Rightarrow> bool" where
  "isdigit_c c \<longleftrightarrow> (48::nat) \<le> of_char c \<and> of_char c \<le> (57::nat)"

fun digits_value :: "int \<Rightarrow> string \<Rightarrow> int" where
  "digits_value acc [] = acc"
| "digits_value acc (c # cs) =
     (if isdigit_c c then digits_value (acc * 10 + (int (of_char c) - 48)) cs else acc)"

definition strtol :: "string \<Rightarrow> int" where
  "strtol s =
     (let s1 = dropWhile isspace_c s;
          neg = (s1 \<noteq> [] \<and> hd s1 = CHR ''-'');
          s2 = (if s1 \<noteq> [] \<and> (hd s1 = CHR ''-'' \<or> hd s1 = CHR ''+'') then tl s1 else s1);
          v = digits_value 0 s2;
          r = (if neg then - v else v)
      in if r > LONG_MAX then LONG_MAX
         else if r < - LONG_MAX - 1 then - LONG_MAX - 1
         else r)"

definition parse_pos_int :: "string \<Rightarrow> int" where
  "parse_pos_int s =
     (let v = strtol s
      in if v < 0 \<or> v > 12 * 60 * 60 then - 1 else v)"

text \<open>
  What \<open>read_config_or_defaults\<close> leaves behind: the two timeouts and the mirror root.
  The fourth key, \<open>ABS_Deadzone\<close>, sets the floating-point global \<open>AXIS_DZ_PCT\<close>, which
  reaches the calibration only through the rounding \<open>lround_pct\<close> below; that branch
  touches none of the three fields.
\<close>

record config =
  cfg_idle_s :: int
  cfg_extended_s :: int
  cfg_hooks_mirror :: string

definition is_blank :: "char \<Rightarrow> bool" where
  "is_blank c \<longleftrightarrow> c = CHR '' '' \<or> c = CHR 0x09"

definition is_trailing :: "char \<Rightarrow> bool" where
  "is_trailing c \<longleftrightarrow> c = CHR '' '' \<or> c = CHR 0x09 \<or> c = CHR 0x0D \<or> c = CHR 0x0A"

definition rtrim :: "string \<Rightarrow> string" where
  "rtrim s = rev (dropWhile is_trailing (rev s))"

definition apply_kv :: "string \<Rightarrow> string \<Rightarrow> config \<Rightarrow> config" where
  "apply_kv key val c =
     (if key = ''idle'' then
        (let n = parse_pos_int val in if n \<ge> 60 then c\<lparr>cfg_idle_s := n\<rparr> else c)
      else if key = ''extended'' then
        (let n = parse_pos_int val in if n \<ge> 60 then c\<lparr>cfg_extended_s := n\<rparr> else c)
      else if key = ''hooks_mirror'' then
        (if val \<noteq> [] then c\<lparr>cfg_hooks_mirror := val\<rparr> else c)
      else c)"

text \<open>One pass of the \<open>fgets\<close> loop, on the line that \<open>fgets\<close> returned.\<close>

definition config_line :: "string \<Rightarrow> config \<Rightarrow> config" where
  "config_line line c =
     (let p = dropWhile is_blank line
      in if p = [] \<or> hd p = CHR 0x0A \<or> hd p = CHR ''#'' \<or> hd p = CHR ''['' then c
         else if CHR ''='' \<notin> set p then c
         else
           (let key = rtrim (takeWhile (\<lambda>ch. ch \<noteq> CHR ''='') p);
                val = rtrim (dropWhile is_blank (tl (dropWhile (\<lambda>ch. ch \<noteq> CHR ''='') p)))
            in apply_kv key val c))"

definition default_config :: config where
  "default_config =
     \<lparr>cfg_idle_s = DEFAULT_IDLE_S, cfg_extended_s = DEFAULT_EXTENDED_S, cfg_hooks_mirror = []\<rparr>"

definition enforce_minimums :: "config \<Rightarrow> config" where
  "enforce_minimums c =
     (let c1 = (if cfg_idle_s c < 60 then c\<lparr>cfg_idle_s := 60\<rparr> else c)
      in if cfg_extended_s c1 < 60 then c1\<lparr>cfg_extended_s := 60\<rparr> else c1)"

text \<open>
  The argument is the config file as \<open>fgets\<close> delivers it, line by line, or \<open>None\<close>
  when \<open>fopen\<close> fails.
\<close>

definition read_config_or_defaults :: "string list option \<Rightarrow> config" where
  "read_config_or_defaults file =
     (case file of
        None \<Rightarrow> default_config
      | Some ls \<Rightarrow> enforce_minimums (fold config_line ls default_config))"

section \<open>Device discovery\<close>

definition Dev0 :: Dev where
  "Dev0 = \<lparr>fd = - 1, path = [], abs_last = (\<lambda>_. 0), abs_seen = (\<lambda>_. False),
           abs_min = (\<lambda>_. 0), abs_max = (\<lambda>_. 0), abs_dz = (\<lambda>_. 0)\<rparr>"

fun find_index :: "('a \<Rightarrow> bool) \<Rightarrow> 'a list \<Rightarrow> nat option" where
  "find_index P [] = None"
| "find_index P (x # xs) = (if P x then Some 0 else map_option Suc (find_index P xs))"

definition dev_index_by_fd :: "int \<Rightarrow> world \<Rightarrow> nat option" where
  "dev_index_by_fd f w = find_index (\<lambda>d. fd d = f) (devices w)"

definition dev_index_by_path :: "string \<Rightarrow> world \<Rightarrow> nat option" where
  "dev_index_by_path p w = find_index (\<lambda>d. path d = p) (devices w)"

text \<open>
  The three statements that \<open>del_dev_fd\<close> and \<open>del_dev\<close> both run on the index they
  found: withdraw the descriptor from the epoll set, close it, erase the entry.
\<close>

definition erase_at :: "nat \<Rightarrow> world \<Rightarrow> world" where
  "erase_at idx w =
     (let w1 = emit (EpollDel (fd (devices w ! idx))) w;
          w2 = emit (Close (fd (devices w1 ! idx))) w1
      in w2\<lparr>devices := take idx (devices w2) @ drop (Suc idx) (devices w2)\<rparr>)"

definition del_dev_fd :: "int \<Rightarrow> world \<Rightarrow> world" where
  "del_dev_fd f w = (case dev_index_by_fd f w of None \<Rightarrow> w | Some idx \<Rightarrow> erase_at idx w)"

definition del_dev :: "string \<Rightarrow> world \<Rightarrow> world" where
  "del_dev p w = (case dev_index_by_path p w of None \<Rightarrow> w | Some idx \<Rightarrow> erase_at idx w)"

text \<open>The conversion \<open>(int)\<close> of a \<open>long\<close>: the value modulo \<open>2 ^ 32\<close>, read as signed.\<close>

definition int_cast :: "int \<Rightarrow> int" where
  "int_cast x = (x + 2 ^ 31) mod 2 ^ 32 - 2 ^ 31"

text \<open>
  The answers of the system to \<open>add_dev\<close>: what \<open>open\<close> returns, whether the
  \<open>epoll_ctl\<close> subscription succeeds, and for each axis code what \<open>EVIOCGABS\<close> reports
  (\<open>None\<close> when the ioctl fails, otherwise minimum and maximum).
\<close>

record open_env =
  open_fd :: int
  epoll_add_ok :: bool
  absinfo :: "nat \<Rightarrow> (int \<times> int) option"

text \<open>
  One turn of the calibration loop. \<open>lround_pct span\<close> stands for
  \<open>std::lround(span * AXIS_DZ_PCT)\<close>, a floating-point product rounded to a \<open>long\<close>;
  it is a parameter of the model.
\<close>

definition init_abs_code :: "(int \<Rightarrow> int) \<Rightarrow> (nat \<Rightarrow> (int \<times> int) option) \<Rightarrow> nat \<Rightarrow> Dev \<Rightarrow> Dev" where
  "init_abs_code lround_pct got_abs code d =
     (case got_abs code of
        None \<Rightarrow> d
      | Some (mn, mx) \<Rightarrow>
          (let d1 = d\<lparr>abs_min := (abs_min d)(code := mn), abs_max := (abs_max d)(code := mx)\<rparr>
           in if is_hat_abs code then d1\<lparr>abs_dz := (abs_dz d1)(code := 0)\<rparr>
              else
                (let span = mx - mn;
                     dz = (if span > 0 then
                             (let dz0 = int_cast (lround_pct span)
                              in if dz0 < AXIS_DZ_MIN then AXIS_DZ_MIN else dz0)
                           else AXIS_DZ_BADSPAN)
                 in d1\<lparr>abs_dz := (abs_dz d1)(code := dz)\<rparr>)))"

definition init_abs_info :: "(int \<Rightarrow> int) \<Rightarrow> (nat \<Rightarrow> (int \<times> int) option) \<Rightarrow> Dev \<Rightarrow> Dev" where
  "init_abs_info lround_pct got_abs d =
     fold (init_abs_code lround_pct got_abs) [0..<Suc ABS_MAX]
       (d\<lparr>abs_min := (\<lambda>_. 0), abs_max := (\<lambda>_. 0), abs_dz := (\<lambda>_. 0)\<rparr>)"

definition add_dev :: "(int \<Rightarrow> int) \<Rightarrow> open_env \<Rightarrow> string \<Rightarrow> world \<Rightarrow> world" where
  "add_dev lround_pct env p w =
     (if open_fd env < 0 then w
      else if \<not> epoll_add_ok env then emit (Close (open_fd env)) w
      else
        (let w1 = emit (EpollAdd (open_fd env)) w;
             d = init_abs_info lround_pct (absinfo env) (Dev0\<lparr>fd := open_fd env, path := p\<rparr>)
         in w1\<lparr>devices := devices w1 @ [d]\<rparr>))"

definition is_event_name :: "string \<Rightarrow> bool" where
  "is_event_name s \<longleftrightarrow>
     take 5 s = ''event'' \<and> drop 5 s \<noteq> [] \<and> list_all isdigit_c (drop 5 s)"

definition scan_entry :: "(int \<Rightarrow> int) \<Rightarrow> string \<times> open_env \<Rightarrow> world \<Rightarrow> world" where
  "scan_entry lround_pct ent w =
     (let name = fst ent
      in if name \<noteq> [] \<and> hd name = CHR ''.'' then w
         else if \<not> is_event_name name then w
         else add_dev lround_pct (snd ent) (INPUT_DIR @ ''/'' @ name) w)"

definition scan_inputs :: "(int \<Rightarrow> int) \<Rightarrow> (string \<times> open_env) list \<Rightarrow> world \<Rightarrow> world" where
  "scan_inputs lround_pct ents w = fold (scan_entry lround_pct) ents w"

section \<open>Input handling\<close>

text \<open>
  \<^verbatim>\<open>struct input_event\<close> without its time stamp: type and code are unsigned 16-bit
  values, the value is a signed 32-bit one.
\<close>

record input_event =
  ev_type :: nat
  ev_code :: nat
  ev_value :: int

text \<open>
  What one \<open>read\<close> on a device descriptor returns: some events, would-block
  (\<open>EAGAIN\<close>), another error, or end of file.
\<close>

datatype read_result = RdEvents "input_event list" | RdWouldBlock | RdError | RdEOF

definition set_dev :: "nat \<Rightarrow> Dev \<Rightarrow> world \<Rightarrow> world" where
  "set_dev i d w = w\<lparr>devices := (devices w)[i := d]\<rparr>"

text \<open>
  The body of the inner \<open>for\<close> loop, for the device at index \<open>i\<close> of the registry
  (the reference \<open>dv\<close>). The result is \<open>None\<close> where the source has undefined
  behaviour: an axis code beyond the arrays, or a difference \<open>val - abs_last[code]\<close>
  whose absolute value does not fit a 32-bit \<open>int\<close>.
\<close>

definition handle_abs :: "nat \<Rightarrow> input_event \<Rightarrow> world \<Rightarrow> (world \<times> bool) option" where
  "handle_abs i e w =
     (let dv = devices w ! i;
          code = ev_code e;
          val = ev_value e
      in if code > ABS_MAX then None
         else if \<not> abs_seen dv code then
           Some (set_dev i (dv\<lparr>abs_last := (abs_last dv)(code := val),
                                abs_seen := (abs_seen dv)(code := True)\<rparr>) w, False)
         else if \<bar>val - abs_last dv code\<bar> > INT_MAX then None
         else
           (let delta = \<bar>val - abs_last dv code\<bar>
            in if is_hat_abs code then
                 (if delta \<noteq> 0 then
                    Some (on_activity (set_dev i (dv\<lparr>abs_last := (abs_last dv)(code := val)\<rparr>) w), True)
                  else Some (w, False))
               else
                 (let dz0 = abs_dz dv code;
                      dz = (if dz0 \<le> 0 then AXIS_DZ_MIN else dz0)
                  in if delta \<ge> dz then
                       Some (on_activity (set_dev i (dv\<lparr>abs_last := (abs_last dv)(code := val)\<rparr>) w), True)
                     else Some (w, False))))"

definition handle_event :: "nat \<Rightarrow> input_event \<Rightarrow> world \<times> bool \<Rightarrow> (world \<times> bool) option" where
  "handle_event i e s =
     (let w = fst s; pulsed = snd s
      in if pulsed then Some (w, True)
         else if ev_type e = EV_SYN then Some (w, False)
         else if ev_type e = EV_KEY \<or> ev_type e = EV_REL then Some (on_activity w, True)
         else if ev_type e = EV_ABS then handle_abs i e w
         else Some (w, False))"

fun events_loop :: "nat \<Rightarrow> input_event list \<Rightarrow> world \<times> bool \<Rightarrow> (world \<times> bool) option" where
  "events_loop i [] s = Some s"
| "events_loop i (e # es) s =
     (case handle_event i e s of None \<Rightarrow> None | Some s' \<Rightarrow> events_loop i es s')"

text \<open>
  The outer \<open>for (;;)\<close> loop, over the results that the successive \<open>read\<close> calls
  return; a descriptor with nothing more queued would block. The loop returns the
  world and the results it has not read.
\<close>

fun read_loop :: "int \<Rightarrow> nat \<Rightarrow> read_result list \<Rightarrow> world \<times> bool \<Rightarrow> (world \<times> read_result list) option" where
  "read_loop f i [] s = Some (fst s, [])"
| "read_loop f i (RdWouldBlock # rs) s = Some (fst s, rs)"
| "read_loop f i (RdError # rs) s = Some (del_dev_fd f (fst s), rs)"
| "read_loop f i (RdEOF # rs) s = Some (del_dev_fd f (fst s), rs)"
| "read_loop f i (RdEvents es # rs) s =
     (case events_loop i es s of None \<Rightarrow> None | Some s' \<Rightarrow> read_loop f i rs s')"

definition handle_input :: "int \<Rightarrow> read_result list \<Rightarrow> world \<Rightarrow> (world \<times> read_result list) option" where
  "handle_input f rs w =
     (case dev_index_by_fd f w of
        None \<Rightarrow> Some (w, rs)
      | Some i \<Rightarrow> read_loop f i rs (w, False))"

section \<open>Main\<close>

text \<open>
  A record of the directory watch: the name, whether the mask has \<open>IN_CREATE\<close> and
  \<open>IN_DELETE\<close>, and the answers of the system should \<open>add_dev\<close> run for it.
\<close>

record inotify_event =
  in_name :: string
  in_create :: bool
  in_delete :: bool
  in_env :: open_env

definition handle_inotify_event :: "(int \<Rightarrow> int) \<Rightarrow> inotify_event \<Rightarrow> world \<Rightarrow> world" where
  "handle_inotify_event lround_pct e w =
     (if in_name e \<noteq> [] \<and> is_event_name (in_name e) then
        (let full = INPUT_DIR @ ''/'' @ in_name e;
             w1 = (if in_create e then add_dev lround_pct (in_env e) full w else w)
         in if in_delete e then del_dev full w1 else w1)
      else w)"

text \<open>What is ready on a descriptor that \<open>epoll_wait\<close> reported.\<close>

record ready =
  rdy_inotify :: "inotify_event list"
  rdy_reads :: "read_result list"

text \<open>One turn of the inner \<open>for\<close> loop of \<open>main\<close>, on the ready descriptor \<open>f\<close>.\<close>

definition dispatch :: "(int \<Rightarrow> int) \<Rightarrow> int \<Rightarrow> ready \<Rightarrow> world \<Rightarrow> world option" where
  "dispatch lround_pct f r w =
     (if f = tfd w then Some (reevaluate w)
      else if f = ifd w then Some (fold (handle_inotify_event lround_pct) (rdy_inotify r) w)
      else map_option fst (handle_input f (rdy_reads r) w))"

text \<open>
  What the start of \<open>main\<close> is given: the config file, the clock of the run, the three
  descriptors that \<open>epoll_create1\<close>, \<open>timerfd_create\<close> and \<open>inotify_init1\<close> return, and
  the entries of the input directory. A failed set-up call ends the process in \<open>die\<close>;
  the model is of the runs that get past them.
\<close>

record boot =
  boot_config :: "string list option"
  boot_clock :: "nat \<Rightarrow> int"
  boot_epfd :: int
  boot_tfd :: int
  boot_ifd :: int
  boot_entries :: "(string \<times> open_env) list"

definition RT0 :: "(nat \<Rightarrow> int) \<Rightarrow> world" where
  "RT0 clk =
     \<lparr>epfd = - 1, tfd = - 1, ifd = - 1, devices = [],
      last_activity_ms = 0, last_pulse_ms = 0, state = ACTIVE,
      idle_s = DEFAULT_IDLE_S, extended_s = DEFAULT_EXTENDED_S,
      HOOKS_MIRROR = [], clock = clk, nreads = 0, effects = []\<rparr>"

definition main_setup :: "(int \<Rightarrow> int) \<Rightarrow> boot \<Rightarrow> world" where
  "main_setup lround_pct b =
     (let c = read_config_or_defaults (boot_config b);
          w0 = (RT0 (boot_clock b))\<lparr>idle_s := cfg_idle_s c, extended_s := cfg_extended_s c,
                                    HOOKS_MIRROR := cfg_hooks_mirror c\<rparr>;
          (now, w1) = now_ms w0;
          w2 = write_state ACTIVE (w1\<lparr>last_activity_ms := now\<rparr>);
          w3 = emit (EpollAdd (boot_tfd b)) (w2\<lparr>epfd := boot_epfd b, tfd := boot_tfd b\<rparr>);
          w4 = emit (EpollAdd (boot_ifd b)) (w3\<lparr>ifd := boot_ifd b\<rparr>);
          w5 = scan_inputs lround_pct (boot_entries b) w4
      in schedule_timer w5)"

text \<open>
  \<open>CLOCK_MONOTONIC_COARSE\<close>: the readings start at or after zero and never go back.
\<close>

definition monotonic :: "(nat \<Rightarrow> int) \<Rightarrow> bool" where
  "monotonic clk \<longleftrightarrow> 0 \<le> clk 0 \<and> (\<forall>k. clk k \<le> clk (Suc k))"

text \<open>The worlds that a run of \<open>main\<close> passes through, between two turns of its loop.\<close>

inductive reachable :: "(int \<Rightarrow> int) \<Rightarrow> world \<Rightarrow> bool" for lround_pct :: "int \<Rightarrow> int" where
  boot: "monotonic (boot_clock b) \<Longrightarrow> reachable lround_pct (main_setup lround_pct b)"
| turn: "reachable lround_pct w \<Longrightarrow> dispatch lround_pct f r w = Some w' \<Longrightarrow> reachable lround_pct w'"

section \<open>Invariants and frames\<close>

text \<open>
  The invariant of the state machine that the proofs carry along a run: the clock
  is monotonic, the last accepted pulse is not later than the last activity mark, both
  timeouts are at least 60 seconds, and outside \<open>ACTIVE\<close> at least the idle timeout has
  passed since the last activity mark.
\<close>

definition sm_inv :: "world \<Rightarrow> bool" where
  "sm_inv w \<longleftrightarrow>
     monotonic (clock w) \<and> last_pulse_ms w \<le> last_activity_ms w \<and>
     60 \<le> idle_s w \<and> 60 \<le> extended_s w \<and>
     (state w \<noteq> ACTIVE \<longrightarrow> idle_s w * 1000 \<le> clock w (nreads w) - last_activity_ms w)"

text \<open>Two worlds that agree on everything the state machine and the dispatch read.\<close>

definition same_sm :: "world \<Rightarrow> world \<Rightarrow> bool" where
  "same_sm w w' \<longleftrightarrow>
     clock w' = clock w \<and> nreads w' = nreads w \<and> last_pulse_ms w' = last_pulse_ms w \<and>
     last_activity_ms w' = last_activity_ms w \<and> idle_s w' = idle_s w \<and>
     extended_s w' = extended_s w \<and> state w' = state w \<and> tfd w' = tfd w \<and> ifd w' = ifd w"

text \<open>
  What a batch of events may do to the world: change the device tables and, when it
  pulsed, call \<open>on_activity\<close> once.
\<close>

definition batch_shape :: "world \<Rightarrow> world \<Rightarrow> bool \<Rightarrow> bool" where
  "batch_shape w w' p \<longleftrightarrow>
     (if p then w' = on_activity (w\<lparr>devices := devices w'\<rparr>)
      else w' = w\<lparr>devices := devices w'\<rparr>)"

definition in_range :: "config \<Rightarrow> bool" where
  "in_range c \<longleftrightarrow> 60 \<le> cfg_idle_s c \<and> cfg_idle_s c \<le> 43200 \<and>
                  60 \<le> cfg_extended_s c \<and> cfg_extended_s c \<le> 43200"

text \<open>The dead-zone that the calibration loop leaves for one axis code.\<close>

definition calibrated :: "(int \<Rightarrow> int) \<Rightarrow> nat \<Rightarrow> (int \<times> int) option \<Rightarrow> int \<Rightarrow> int" where
  "calibrated lr c r old =
     (case r of
        None \<Rightarrow> old
      | Some (mn, mx) \<Rightarrow>
          if is_hat_abs c then 0
          else if mx - mn > 0 then max (int_cast (lr (mx - mn))) AXIS_DZ_MIN
          else AXIS_DZ_BADSPAN)"


section \<open>A run used as example\<close>

text \<open>
  A run without a config file (idle timeout 900 s, extended timeout 3600 s) on a clock
  that advances 1000 s between two readings. The input directory holds one device,
  \<open>event0\<close>, opened as descriptor 6, whose axis 0 reports the range 0 to 255.
  \<open>example_lround\<close> is the rounding at the default fraction 0.15 on the span of that
  axis (255 gives 38).
\<close>

definition example_clock :: "nat \<Rightarrow> int" where
  "example_clock k = 1000000 * int k"

definition example_lround :: "int \<Rightarrow> int" where
  "example_lround span = (span * 15 + 50) div 100"

definition example_env :: open_env where
  "example_env = \<lparr>open_fd = 6, epoll_add_ok = True, absinfo = (\<lambda>_. None)(0 := Some (0, 255))\<rparr>"

definition example_boot :: boot where
  "example_boot = \<lparr>boot_config = None, boot_clock = example_clock,
                    boot_epfd = 3, boot_tfd = 4, boot_ifd = 5,
                    boot_entries = [(''event0'', example_env)]\<rparr>"

definition example_dev :: Dev where
  "example_dev = init_abs_info example_lround (absinfo example_env)
                   (Dev0\<lparr>fd := 6, path := ''/dev/input/event0''\<rparr>)"

definition example_world :: world where
  "example_world = main_setup example_lround example_boot"

text \<open>The same run after the timer fired once: 2000 s without activity, state \<open>IDLE\<close>.\<close>

definition example_idle :: world where
  "example_idle = reevaluate example_world"


text \<open>A clock whose readings are one millisecond apart, five seconds after its origin.\<close>

definition burst_clock :: "nat \<Rightarrow> int" where
  "burst_clock k = 5000 + int k"

definition abs_event :: "nat \<Rightarrow> int \<Rightarrow> input_event" where
  "abs_event c v = \<lparr>ev_type = EV_ABS, ev_code = c, ev_value = v\<rparr>"

definition key_event :: input_event where
  "key_event = \<lparr>ev_type = EV_KEY, ev_code = 30, ev_value = 1\<rparr>"

text \<open>
  An axis that reports the whole range of a signed 32-bit value, and the rounding
  \<open>std::lround(span * AXIS_DZ_PCT)\<close> on a span that is not negative when \<open>AXIS_DZ_PCT\<close> is
  0.90, the value that \<open>ABS_Deadzone=0.9\<close> (or \<open>90\<close>, or anything above) leaves after the
  clamp of \<open>read_config_or_defaults\<close>: nine tenths of the span, to the nearest integer,
  a half going up. On the span 4294967295 of this axis the product is 3865470565.5
  and the rounding gives 3865470566.
\<close>

definition wide_axes :: "nat \<Rightarrow> (int \<times> int) option" where
  "wide_axes = (\<lambda>_. None)(0 := Some (- 2147483648, 2147483647))"

definition lround_090 :: "int \<Rightarrow> int" where
  "lround_090 span = (span * 9 + 5) div 10"

section \<open>Frames of the operations\<close>

lemma emit_fields [simp]:
  "devices (emit e w) = devices w"
  "last_activity_ms (emit e w) = last_activity_ms w"
  "last_pulse_ms (emit e w) = last_pulse_ms w"
  "state (emit e w) = state w"
  "idle_s (emit e w) = idle_s w"
  "extended_s (emit e w) = extended_s w"
  "HOOKS_MIRROR (emit e w) = HOOKS_MIRROR w"
  "clock (emit e w) = clock w"
  "nreads (emit e w) = nreads w"
  "tfd (emit e w) = tfd w"
  "ifd (emit e w) = ifd w"
  "epfd (emit e w) = epfd w"
  "effects (emit e w) = effects w @ [e]"
  by (simp_all add: emit_def)

lemma arm_timer_ms_fields [simp]:
  "devices (arm_timer_ms ms w) = devices w"
  "last_activity_ms (arm_timer_ms ms w) = last_activity_ms w"
  "last_pulse_ms (arm_timer_ms ms w) = last_pulse_ms w"
  "state (arm_timer_ms ms w) = state w"
  "idle_s (arm_timer_ms ms w) = idle_s w"
  "extended_s (arm_timer_ms ms w) = extended_s w"
  "HOOKS_MIRROR (arm_timer_ms ms w) = HOOKS_MIRROR w"
  "clock (arm_timer_ms ms w) = clock w"
  "nreads (arm_timer_ms ms w) = nreads w"
  "tfd (arm_timer_ms ms w) = tfd w"
  "ifd (arm_timer_ms ms w) = ifd w"
  "epfd (arm_timer_ms ms w) = epfd w"
  by (simp_all add: arm_timer_ms_def)

lemma schedule_timer_fields [simp]:
  "devices (schedule_timer w) = devices w"
  "last_activity_ms (schedule_timer w) = last_activity_ms w"
  "last_pulse_ms (schedule_timer w) = last_pulse_ms w"
  "state (schedule_timer w) = state w"
  "idle_s (schedule_timer w) = idle_s w"
  "extended_s (schedule_timer w) = extended_s w"
  "HOOKS_MIRROR (schedule_timer w) = HOOKS_MIRROR w"
  "clock (schedule_timer w) = clock w"
  "tfd (schedule_timer w) = tfd w"
  "ifd (schedule_timer w) = ifd w"
  "epfd (schedule_timer w) = epfd w"
  by (simp_all add: schedule_timer_def effective_idle_ms_def now_ms_def Let_def)

lemma run_hook_roots_fields [simp]:
  "devices (run_hook_roots s a w) = devices w"
  "last_activity_ms (run_hook_roots s a w) = last_activity_ms w"
  "last_pulse_ms (run_hook_roots s a w) = last_pulse_ms w"
  "state (run_hook_roots s a w) = state w"
  "idle_s (run_hook_roots s a w) = idle_s w"
  "extended_s (run_hook_roots s a w) = extended_s w"
  "HOOKS_MIRROR (run_hook_roots s a w) = HOOKS_MIRROR w"
  "clock (run_hook_roots s a w) = clock w"
  "nreads (run_hook_roots s a w) = nreads w"
  "tfd (run_hook_roots s a w) = tfd w"
  "ifd (run_hook_roots s a w) = ifd w"
  "epfd (run_hook_roots s a w) = epfd w"
  by (simp_all add: run_hook_roots_def run_folder_def Let_def)

lemma enter_fields [simp]:
  "devices (enter to w) = devices w"
  "last_activity_ms (enter to w) = last_activity_ms w"
  "last_pulse_ms (enter to w) = last_pulse_ms w"
  "state (enter to w) = to"
  "idle_s (enter to w) = idle_s w"
  "extended_s (enter to w) = extended_s w"
  "HOOKS_MIRROR (enter to w) = HOOKS_MIRROR w"
  "clock (enter to w) = clock w"
  "nreads (enter to w) = nreads w"
  "tfd (enter to w) = tfd w"
  "ifd (enter to w) = ifd w"
  "epfd (enter to w) = epfd w"
  by (simp_all add: enter_def write_state_def Let_def)

lemma on_activity_fields [simp]:
  "devices (on_activity w) = devices w"
  "idle_s (on_activity w) = idle_s w"
  "extended_s (on_activity w) = extended_s w"
  "HOOKS_MIRROR (on_activity w) = HOOKS_MIRROR w"
  "clock (on_activity w) = clock w"
  "tfd (on_activity w) = tfd w"
  "ifd (on_activity w) = ifd w"
  "epfd (on_activity w) = epfd w"
  by (simp_all add: on_activity_def now_ms_def Let_def)

lemma reevaluate_fields [simp]:
  "devices (reevaluate w) = devices w"
  "last_activity_ms (reevaluate w) = last_activity_ms w"
  "last_pulse_ms (reevaluate w) = last_pulse_ms w"
  "idle_s (reevaluate w) = idle_s w"
  "extended_s (reevaluate w) = extended_s w"
  "HOOKS_MIRROR (reevaluate w) = HOOKS_MIRROR w"
  "clock (reevaluate w) = clock w"
  "tfd (reevaluate w) = tfd w"
  "ifd (reevaluate w) = ifd w"
  "epfd (reevaluate w) = epfd w"
  by (simp_all add: reevaluate_def effective_idle_ms_def now_ms_def Let_def)

lemma schedule_timer_nreads [simp]:
  "nreads (schedule_timer w) = (if state w = EXTENDED then nreads w else Suc (nreads w))"
  by (simp add: schedule_timer_def effective_idle_ms_def now_ms_def Let_def)

lemma on_activity_rejected:
  "clock w (nreads w) - last_pulse_ms w < DEBOUNCE_MS \<Longrightarrow> on_activity w = w\<lparr>nreads := Suc (nreads w)\<rparr>"
  by (simp add: on_activity_def now_ms_def)

lemma on_activity_accepted:
  assumes "DEBOUNCE_MS \<le> clock w (nreads w) - last_pulse_ms w"
  shows "last_pulse_ms (on_activity w) = clock w (nreads w)"
    and "last_activity_ms (on_activity w) = clock w (nreads w)"
    and "state (on_activity w) = ACTIVE"
    and "nreads (on_activity w) = Suc (Suc (nreads w))"
  using assms
  by (simp_all add: on_activity_def now_ms_def Let_def)

lemma monotonic_le:
  assumes "monotonic clk" "i \<le> j" shows "clk i \<le> clk j"
  using assms by (simp add: monotonic_def lift_Suc_mono_le)

lemma reevaluate_state:
  "state (reevaluate w) =
     (let delta = clock w (nreads w) - last_activity_ms w;
          eff = (if delta > 0 then delta else 0)
      in if state w = ACTIVE then (if eff \<ge> idle_s w * 1000 then IDLE else ACTIVE)
         else if state w = IDLE then
           (if eff < idle_s w * 1000 then ACTIVE
            else if eff \<ge> idle_s w * 1000 + extended_s w * 1000 then EXTENDED else IDLE)
         else (if eff < idle_s w * 1000 then ACTIVE else state w))"
  by (simp add: reevaluate_def effective_idle_ms_def now_ms_def Let_def)

lemma reevaluate_nreads:
  "nreads w < nreads (reevaluate w)"
  by (simp add: reevaluate_def effective_idle_ms_def now_ms_def Let_def)

lemma reevaluate_stays_inactive:
  assumes "sm_inv w" "state w \<noteq> ACTIVE"
  shows "state (reevaluate w) \<noteq> ACTIVE"
  using assms by (cases "state w") (auto simp: sm_inv_def reevaluate_state Let_def)

lemma sm_inv_reevaluate:
  assumes "sm_inv w" shows "sm_inv (reevaluate w)"
proof -
  have mono: "monotonic (clock w)" using assms by (simp add: sm_inv_def)
  have le: "clock w (nreads w) \<le> clock w (nreads (reevaluate w))"
    using monotonic_le [OF mono] reevaluate_nreads [of w] by simp
  show ?thesis
    using assms le
    by (cases "state w") (auto simp: sm_inv_def reevaluate_state Let_def split: if_splits)
qed

lemma sm_inv_on_activity:
  assumes "sm_inv w" shows "sm_inv (on_activity w)"
proof (cases "clock w (nreads w) - last_pulse_ms w < DEBOUNCE_MS")
  case True
  have "clock w (nreads w) \<le> clock w (Suc (nreads w))"
    using assms by (simp add: sm_inv_def monotonic_def)
  then show ?thesis using assms True by (auto simp: on_activity_rejected sm_inv_def)
next
  case False
  then have "DEBOUNCE_MS \<le> clock w (nreads w) - last_pulse_ms w" by simp
  from on_activity_accepted [OF this] assms show ?thesis by (simp add: sm_inv_def)
qed

lemma inactive_accepts:
  assumes "sm_inv w" "state w \<noteq> ACTIVE"
  shows "DEBOUNCE_MS \<le> clock w (nreads w) - last_pulse_ms w"
  using assms by (simp add: sm_inv_def DEBOUNCE_MS_def)

lemma same_sm_refl [simp]: "same_sm w w"
  by (simp add: same_sm_def)

lemma same_sm_trans: "same_sm w w1 \<Longrightarrow> same_sm w1 w2 \<Longrightarrow> same_sm w w2"
  by (simp add: same_sm_def)

lemma same_sm_inv: "same_sm w w' \<Longrightarrow> sm_inv w' = sm_inv w"
  by (simp add: same_sm_def sm_inv_def)

lemma same_sm_devices [simp]: "same_sm w (w\<lparr>devices := ds\<rparr>)"
  by (simp add: same_sm_def)

lemma same_sm_emit [simp]: "same_sm w (emit e w)"
  by (simp add: same_sm_def)

lemma same_sm_erase_at [simp]: "same_sm w (erase_at idx w)"
  by (simp add: same_sm_def erase_at_def Let_def)

lemma same_sm_del_dev_fd [simp]: "same_sm w (del_dev_fd f w)"
  by (simp add: del_dev_fd_def split: option.splits)

lemma same_sm_del_dev [simp]: "same_sm w (del_dev p w)"
  by (simp add: del_dev_def split: option.splits)

lemma same_sm_add_dev [simp]: "same_sm w (add_dev lr env p w)"
  by (simp add: add_dev_def Let_def same_sm_def)

lemma same_sm_scan_entry [simp]: "same_sm w (scan_entry lr ent w)"
  by (simp add: scan_entry_def Let_def)

lemma same_sm_scan_inputs [simp]: "same_sm w (scan_inputs lr ents w)"
  unfolding scan_inputs_def
proof (induction ents arbitrary: w)
  case Nil
  show ?case by simp
next
  case (Cons ent ents)
  have "same_sm w (scan_entry lr ent w)" by simp
  from same_sm_trans [OF this Cons.IH] show ?case by simp
qed

lemma same_sm_handle_inotify_event [simp]: "same_sm w (handle_inotify_event lr e w)"
proof -
  have "same_sm w (del_dev p (add_dev lr env q w))" for p env q
    using same_sm_trans [OF same_sm_add_dev same_sm_del_dev] .
  then show ?thesis by (simp add: handle_inotify_event_def Let_def)
qed

lemma same_sm_fold_inotify: "same_sm w (fold (handle_inotify_event lr) es w)"
proof (induction es arbitrary: w)
  case Nil
  show ?case by simp
next
  case (Cons e es)
  have "same_sm w (handle_inotify_event lr e w)" by simp
  from same_sm_trans [OF this Cons.IH] show ?case by simp
qed

lemma handle_abs_shape:
  assumes "handle_abs i e w = Some (w', p)"
  shows "batch_shape w w' p"
  using assms
  by (auto simp: handle_abs_def Let_def batch_shape_def set_dev_def split: if_splits)

lemma handle_event_shape:
  assumes "handle_event i e (w, False) = Some (w', p)"
  shows "batch_shape w w' p"
  using assms handle_abs_shape [of i e w w' p]
  by (auto simp: handle_event_def Let_def batch_shape_def split: if_splits)

lemma handle_event_pulsed: "handle_event i e (w, True) = Some (w, True)"
  by (simp add: handle_event_def)

lemma events_loop_pulsed: "events_loop i es (w, True) = Some (w, True)"
  by (induction es) (simp_all add: handle_event_pulsed)

lemma batch_shape_step:
  assumes "batch_shape w w1 False" "batch_shape w1 w' p"
  shows "batch_shape w w' p"
proof -
  from assms(1) obtain ds where w1: "w1 = w\<lparr>devices := ds\<rparr>"
    by (auto simp: batch_shape_def)
  show ?thesis using assms(2) unfolding w1 by (cases p) (simp_all add: batch_shape_def)
qed

lemma events_loop_shape:
  assumes "events_loop i es (w, False) = Some (w', p)"
  shows "batch_shape w w' p"
  using assms
proof (induction es arbitrary: w)
  case Nil
  then show ?case by (simp add: batch_shape_def)
next
  case (Cons e es)
  from Cons.prems obtain w1 p1 where
    ev: "handle_event i e (w, False) = Some (w1, p1)" and
    rest: "events_loop i es (w1, p1) = Some (w', p)"
    by (auto split: option.splits)
  have s1: "batch_shape w w1 p1" by (rule handle_event_shape [OF ev])
  show ?case
  proof (cases p1)
    case True
    with rest have "w' = w1" "p" by (simp_all add: events_loop_pulsed)
    with s1 True show ?thesis by simp
  next
    case False
    with rest have "batch_shape w1 w' p" using Cons.IH by simp
    with s1 False show ?thesis using batch_shape_step [of w w1 w' p] by simp
  qed
qed

lemma parse_pos_int_le: "parse_pos_int s \<le> 43200"
  by (simp add: parse_pos_int_def Let_def)

lemma in_range_apply_kv: "in_range c \<Longrightarrow> in_range (apply_kv key val c)"
  using parse_pos_int_le [of val]
  by (simp add: apply_kv_def in_range_def Let_def)

lemma in_range_config_line: "in_range c \<Longrightarrow> in_range (config_line line c)"
  by (simp add: config_line_def Let_def in_range_apply_kv)

lemma in_range_fold: "in_range c \<Longrightarrow> in_range (fold config_line ls c)"
  by (induction ls arbitrary: c) (simp_all add: in_range_config_line)

lemma in_range_default: "in_range default_config"
  by (simp add: in_range_def default_config_def DEFAULT_IDLE_S_def DEFAULT_EXTENDED_S_def)

lemma enforce_minimums_id: "in_range c \<Longrightarrow> enforce_minimums c = c"
  by (simp add: enforce_minimums_def in_range_def Let_def)

lemma in_range_read_config: "in_range (read_config_or_defaults file)"
  by (cases "file")
     (simp_all add: read_config_or_defaults_def in_range_default in_range_fold enforce_minimums_id)

lemma main_setup_fields:
  "clock (main_setup lr b) = boot_clock b"
  "last_pulse_ms (main_setup lr b) = 0"
  "last_activity_ms (main_setup lr b) = boot_clock b 0"
  "state (main_setup lr b) = ACTIVE"
  "idle_s (main_setup lr b) = cfg_idle_s (read_config_or_defaults (boot_config b))"
  "extended_s (main_setup lr b) = cfg_extended_s (read_config_or_defaults (boot_config b))"
proof -
  define w4 where "w4 = emit (EpollAdd (boot_ifd b))
     ((emit (EpollAdd (boot_tfd b))
        ((write_state ACTIVE
           ((RT0 (boot_clock b))\<lparr>idle_s := cfg_idle_s (read_config_or_defaults (boot_config b)),
              extended_s := cfg_extended_s (read_config_or_defaults (boot_config b)),
              HOOKS_MIRROR := cfg_hooks_mirror (read_config_or_defaults (boot_config b)),
              nreads := Suc 0, last_activity_ms := boot_clock b 0\<rparr>))
         \<lparr>epfd := boot_epfd b, tfd := boot_tfd b\<rparr>))\<lparr>ifd := boot_ifd b\<rparr>)"
  have ms: "main_setup lr b = schedule_timer (scan_inputs lr (boot_entries b) w4)"
    by (simp add: main_setup_def Let_def now_ms_def RT0_def w4_def)
  have s: "same_sm w4 (scan_inputs lr (boot_entries b) w4)" by simp
  have f4: "clock w4 = boot_clock b" "last_pulse_ms w4 = 0" "last_activity_ms w4 = boot_clock b 0"
    "state w4 = ACTIVE" "idle_s w4 = cfg_idle_s (read_config_or_defaults (boot_config b))"
    "extended_s w4 = cfg_extended_s (read_config_or_defaults (boot_config b))"
    by (simp_all add: w4_def write_state_def RT0_def)
  from s f4 show
    "clock (main_setup lr b) = boot_clock b"
    "last_pulse_ms (main_setup lr b) = 0"
    "last_activity_ms (main_setup lr b) = boot_clock b 0"
    "state (main_setup lr b) = ACTIVE"
    "idle_s (main_setup lr b) = cfg_idle_s (read_config_or_defaults (boot_config b))"
    "extended_s (main_setup lr b) = cfg_extended_s (read_config_or_defaults (boot_config b))"
    unfolding ms by (simp_all add: same_sm_def)
qed

lemma sm_inv_main_setup:
  assumes "monotonic (boot_clock b)"
  shows "sm_inv (main_setup lr b)"
  using assms in_range_read_config [of "boot_config b"]
  by (simp add: sm_inv_def main_setup_fields in_range_def monotonic_def)

lemma read_loop_pulsed:
  "read_loop f i (map RdEvents bs @ RdWouldBlock # rest) (w, True) = Some (w, rest)"
  by (induction bs) (simp_all add: events_loop_pulsed)

lemma read_loop_shape:
  assumes "read_loop f i rs (w, p) = Some (w', rest)"
  shows "\<exists>u q. (w' = u \<or> w' = del_dev_fd f u) \<and> (if p then u = w else batch_shape w u q)"
  using assms
proof (induction rs arbitrary: w p)
  case Nil
  then have "w' = w" by simp
  then show ?case by (auto simp: batch_shape_def intro!: exI [of _ w] exI [of _ False])
next
  case (Cons r rs)
  have stop: ?case if "w' = w \<or> w' = del_dev_fd f w"
    using that by (auto simp: batch_shape_def intro!: exI [of _ w] exI [of _ False])
  show ?case
  proof (cases r)
    case (RdEvents es)
    with Cons.prems obtain w1 p1 where
      ev: "events_loop i es (w, p) = Some (w1, p1)" and
      rest: "read_loop f i rs (w1, p1) = Some (w', rest)"
      by (auto split: option.splits)
    from Cons.IH [OF rest] obtain u q where
      u: "w' = u \<or> w' = del_dev_fd f u" and sh: "if p1 then u = w1 else batch_shape w1 u q"
      by blast
    show ?thesis
    proof (cases p)
      case True
      with ev have "w1 = w" "p1" by (simp_all add: events_loop_pulsed)
      with u sh True show ?thesis by auto
    next
      case False
      with ev have s1: "batch_shape w w1 p1" using events_loop_shape by simp
      show ?thesis
      proof (cases p1)
        case True
        with sh s1 u False show ?thesis by auto
      next
        case p1: False
        with sh have "batch_shape w1 u q" by simp
        with s1 p1 have "batch_shape w u q" using batch_shape_step [of w w1 u q] by simp
        with u False show ?thesis by auto
      qed
    qed
  next
    case RdWouldBlock
    with Cons.prems show ?thesis by (intro stop) simp
  next
    case RdError
    with Cons.prems show ?thesis by (intro stop) auto
  next
    case RdEOF
    with Cons.prems show ?thesis by (intro stop) auto
  qed
qed

lemma handle_input_result:
  assumes "handle_input f rs w = Some (w', rest)"
  shows "\<exists>u p. (w' = u \<or> w' = del_dev_fd f u) \<and> batch_shape w u p"
proof (cases "dev_index_by_fd f w")
  case None
  with assms have "w' = w" by (simp add: handle_input_def)
  then have "(w' = w \<or> w' = del_dev_fd f w) \<and> batch_shape w w False"
    by (simp add: batch_shape_def)
  then show ?thesis by blast
next
  case (Some i)
  with assms have "read_loop f i rs (w, False) = Some (w', rest)" by (simp add: handle_input_def)
  from read_loop_shape [OF this] show ?thesis by simp
qed

lemma sm_inv_batch_shape:
  assumes "batch_shape w u p" "sm_inv w"
  shows "sm_inv u"
proof (cases p)
  case True
  with assms(1) have u: "u = on_activity (w\<lparr>devices := devices u\<rparr>)"
    by (simp add: batch_shape_def)
  have "sm_inv (w\<lparr>devices := devices u\<rparr>)"
    using assms(2) same_sm_inv [OF same_sm_devices] by simp
  from sm_inv_on_activity [OF this] u show ?thesis by simp
next
  case False
  with assms(1) have u: "u = w\<lparr>devices := devices u\<rparr>"
    by (simp add: batch_shape_def)
  have "sm_inv (w\<lparr>devices := devices u\<rparr>)"
    using assms(2) same_sm_inv [OF same_sm_devices] by simp
  with u show ?thesis by simp
qed

lemma sm_inv_handle_input:
  assumes "handle_input f rs w = Some (w', rest)" "sm_inv w"
  shows "sm_inv w'"
proof -
  from handle_input_result [OF assms(1)] obtain u p where
    u: "w' = u \<or> w' = del_dev_fd f u" and sh: "batch_shape w u p"
    by blast
  have "sm_inv u" by (rule sm_inv_batch_shape [OF sh assms(2)])
  with u show ?thesis using same_sm_inv [OF same_sm_del_dev_fd, of f u] by auto
qed

lemma sm_inv_dispatch:
  assumes "sm_inv w" "dispatch lr f r w = Some w'"
  shows "sm_inv w'"
proof -
  consider (timer) "f = tfd w" | (watch) "f \<noteq> tfd w" "f = ifd w" | (input) "f \<noteq> tfd w" "f \<noteq> ifd w"
    by blast
  then show ?thesis
  proof cases
    case timer
    with assms(2) have "w' = reevaluate w" by (simp add: dispatch_def)
    with assms(1) show ?thesis by (simp add: sm_inv_reevaluate)
  next
    case watch
    with assms(2) have "w' = fold (handle_inotify_event lr) (rdy_inotify r) w"
      by (simp add: dispatch_def)
    with assms(1) show ?thesis using same_sm_inv [OF same_sm_fold_inotify] by simp
  next
    case input
    with assms(2) obtain rest where "handle_input f (rdy_reads r) w = Some (w', rest)"
      by (auto simp: dispatch_def)
    from sm_inv_handle_input [OF this assms(1)] show ?thesis .
  qed
qed

lemma reachable_sm_inv: "reachable lr w \<Longrightarrow> sm_inv w"
  by (induction rule: reachable.induct) (simp_all add: sm_inv_main_setup sm_inv_dispatch)

lemma batch_shape_to_active:
  assumes "batch_shape w u p" "state w \<noteq> ACTIVE" "state u = ACTIVE"
  shows "DEBOUNCE_MS \<le> clock w (nreads w) - last_pulse_ms w \<and>
         last_pulse_ms u = clock w (nreads w) \<and> last_activity_ms u = clock w (nreads w)"
proof (cases p)
  case False
  with assms(1) have "u = w\<lparr>devices := devices u\<rparr>" by (simp add: batch_shape_def)
  then have "state u = state w" by (metis (full_types) same_sm_def same_sm_devices)
  with assms show ?thesis by simp
next
  case True
  define v where "v = w\<lparr>devices := devices u\<rparr>"
  from True assms(1) have u: "u = on_activity v" by (simp add: batch_shape_def v_def)
  have v: "state v = state w" "clock v = clock w" "nreads v = nreads w" "last_pulse_ms v = last_pulse_ms w"
    by (simp_all add: v_def)
  have acc: "DEBOUNCE_MS \<le> clock v (nreads v) - last_pulse_ms v"
  proof (rule ccontr)
    assume "\<not> ?thesis"
    then have "on_activity v = v\<lparr>nreads := Suc (nreads v)\<rparr>" by (simp add: on_activity_rejected)
    with u v assms(2,3) show False by simp
  qed
  from on_activity_accepted [OF acc] acc u v show ?thesis by simp
qed



section \<open>Calibration and config helpers\<close>

lemma init_abs_code_frame:
  "fd (init_abs_code lr g c d) = fd d"
  "path (init_abs_code lr g c d) = path d"
  "abs_last (init_abs_code lr g c d) = abs_last d"
  "abs_seen (init_abs_code lr g c d) = abs_seen d"
  by (simp_all add: init_abs_code_def Let_def split: option.splits)

lemma init_abs_code_other:
  "c' \<noteq> c \<Longrightarrow> abs_dz (init_abs_code lr g c d) c' = abs_dz d c'"
  by (simp add: init_abs_code_def Let_def split: option.splits)

lemma init_abs_code_self:
  "abs_dz (init_abs_code lr g c d) c = calibrated lr c (g c) (abs_dz d c)"
  by (simp add: init_abs_code_def calibrated_def Let_def max_def split: option.splits)

lemma fold_init_abs_code_frame:
  "fd (fold (init_abs_code lr g) cs d) = fd d"
  "path (fold (init_abs_code lr g) cs d) = path d"
  "abs_last (fold (init_abs_code lr g) cs d) = abs_last d"
  "abs_seen (fold (init_abs_code lr g) cs d) = abs_seen d"
  by (induction cs arbitrary: d) (simp_all add: init_abs_code_frame)

lemma fold_init_abs_code_dz:
  "abs_dz (fold (init_abs_code lr g) [0..<n] d) c =
     (if c < n then calibrated lr c (g c) (abs_dz d c) else abs_dz d c)"
proof (induction n)
  case 0
  show ?case by simp
next
  case (Suc n)
  show ?case
  proof (cases "c = n")
    case True
    then show ?thesis using Suc by (simp add: init_abs_code_self)
  next
    case False
    then show ?thesis using Suc by (simp add: init_abs_code_other)
  qed
qed

lemma init_abs_info_dz:
  "c \<le> ABS_MAX \<Longrightarrow> abs_dz (init_abs_info lr g d) c = calibrated lr c (g c) 0"
  unfolding init_abs_info_def by (simp add: fold_init_abs_code_dz del: upt_Suc)

lemma init_abs_info_frame:
  "fd (init_abs_info lr g d) = fd d"
  "path (init_abs_info lr g d) = path d"
  "abs_last (init_abs_info lr g d) = abs_last d"
  "abs_seen (init_abs_info lr g d) = abs_seen d"
  unfolding init_abs_info_def by (simp_all add: fold_init_abs_code_frame del: upt_Suc)

section \<open>Facts about the example run\<close>

lemma monotonic_example_clock: "monotonic example_clock"
  by (simp add: monotonic_def example_clock_def)

lemma example_dev_fields:
  "fd example_dev = 6" "path example_dev = ''/dev/input/event0''"
  "abs_seen example_dev = (\<lambda>_. False)" "abs_last example_dev = (\<lambda>_. 0)"
  "abs_dz example_dev 0 = 64"
  by (simp_all add: example_dev_def init_abs_info_frame Dev0_def init_abs_info_dz ABS_MAX_def
      calibrated_def example_env_def is_hat_abs_def ABS_HAT0X_def example_lround_def
      int_cast_def AXIS_DZ_MIN_def)

lemma example_world_devices: "devices example_world = [example_dev]"
  by (simp add: example_world_def main_setup_def example_boot_def Let_def now_ms_def
      scan_inputs_def scan_entry_def is_event_name_def isdigit_c_def add_dev_def example_env_def
      INPUT_DIR_def example_dev_def write_state_def RT0_def)

lemma example_world_fields:
  "clock example_world = example_clock" "last_pulse_ms example_world = 0"
  "last_activity_ms example_world = 0" "state example_world = ACTIVE"
  "idle_s example_world = 900" "extended_s example_world = 3600"
  by (simp_all add: example_world_def main_setup_fields example_boot_def example_clock_def
      read_config_or_defaults_def default_config_def DEFAULT_IDLE_S_def DEFAULT_EXTENDED_S_def)

lemma example_world_nreads: "nreads example_world = 2"
  by (simp add: example_world_def main_setup_def Let_def now_ms_def example_boot_def
      scan_inputs_def scan_entry_def is_event_name_def isdigit_c_def add_dev_def example_env_def
      write_state_def RT0_def)

lemma example_world_fds: "tfd example_world = 4" "ifd example_world = 5"
  by (simp_all add: example_world_def main_setup_def Let_def now_ms_def example_boot_def
      scan_inputs_def scan_entry_def is_event_name_def isdigit_c_def add_dev_def example_env_def
      write_state_def RT0_def)

lemma reachable_example_world: "reachable example_lround example_world"
  unfolding example_world_def
  by (rule reachable.boot) (simp add: example_boot_def monotonic_example_clock)

lemma reachable_example_idle: "reachable example_lround example_idle"
proof -
  have "dispatch example_lround 4 \<lparr>rdy_inotify = [], rdy_reads = []\<rparr> example_world
          = Some example_idle"
    by (simp add: dispatch_def example_world_fds example_idle_def)
  from reachable.turn [OF reachable_example_world this] show ?thesis .
qed

lemma example_idle_fields:
  "state example_idle = IDLE" "nreads example_idle = 4" "clock example_idle = example_clock"
  "last_pulse_ms example_idle = 0" "last_activity_ms example_idle = 0"
  "tfd example_idle = 4" "ifd example_idle = 5" "devices example_idle = [example_dev]"
  "idle_s example_idle = 900"
  by (simp_all add: example_idle_def reevaluate_state example_world_fields example_world_nreads
      example_world_fds example_world_devices example_clock_def Let_def
      reevaluate_def effective_idle_ms_def now_ms_def)

lemmas example_eval =
  example_world_devices example_dev_fields handle_event_def handle_abs_def abs_event_def
  key_event_def set_dev_def Let_def EV_ABS_def EV_SYN_def EV_KEY_def EV_REL_def ABS_MAX_def
  INT_MAX_def is_hat_abs_def ABS_HAT0X_def ABS_HAT3Y_def AXIS_DZ_MIN_def

section \<open>The claims\<close>

text \<open>
  C1. In a run, a turn of the main loop that takes the state from \<open>IDLE\<close> or \<open>EXTENDED\<close>
  to \<open>ACTIVE\<close> is a turn on a device descriptor in which an activity pulse passed the
  debounce check (the pulse mark and the activity mark are the clock reading of that
  pulse); the timer turn, \<open>reevaluate\<close>, leaves an inactive state inactive.
\<close>

theorem return_to_active_needs_pulse:
  assumes "reachable lround_pct w" and "state w \<noteq> ACTIVE"
  shows "state (reevaluate w) \<noteq> ACTIVE \<and>
         (dispatch lround_pct f r w = Some w' \<longrightarrow> state w' = ACTIVE \<longrightarrow>
            f \<noteq> tfd w \<and> f \<noteq> ifd w \<and>
            DEBOUNCE_MS \<le> clock w (nreads w) - last_pulse_ms w \<and>
            last_pulse_ms w' = clock w (nreads w) \<and>
            last_activity_ms w' = clock w (nreads w))"
proof (intro conjI impI)
  have inv: "sm_inv w" by (rule reachable_sm_inv [OF assms(1)])
  show stay: "state (reevaluate w) \<noteq> ACTIVE"
    by (rule reevaluate_stays_inactive [OF inv assms(2)])
  assume d: "dispatch lround_pct f r w = Some w'" and a: "state w' = ACTIVE"
  show nt: "f \<noteq> tfd w"
  proof
    assume "f = tfd w"
    with d have "w' = reevaluate w" by (simp add: dispatch_def)
    with stay a show False by simp
  qed
  show ni: "f \<noteq> ifd w"
  proof
    assume "f = ifd w"
    with d nt have "w' = fold (handle_inotify_event lround_pct) (rdy_inotify r) w"
      by (simp add: dispatch_def)
    then have "state w' = state w"
      using same_sm_fold_inotify [of w lround_pct "rdy_inotify r"] by (simp add: same_sm_def)
    with a assms(2) show False by simp
  qed
  from d nt ni obtain rest where "handle_input f (rdy_reads r) w = Some (w', rest)"
    by (auto simp: dispatch_def)
  from handle_input_result [OF this] obtain u p where
    u: "w' = u \<or> w' = del_dev_fd f u" and sh: "batch_shape w u p"
    by blast
  have eq: "state w' = state u" "last_pulse_ms w' = last_pulse_ms u"
    "last_activity_ms w' = last_activity_ms u"
    using u same_sm_del_dev_fd [of u f] by (auto simp: same_sm_def)
  from batch_shape_to_active [OF sh assms(2)] a eq
  show "DEBOUNCE_MS \<le> clock w (nreads w) - last_pulse_ms w"
    "last_pulse_ms w' = clock w (nreads w)" "last_activity_ms w' = clock w (nreads w)"
    by simp_all
qed

theorem return_to_active_needs_pulse_witness:
  "reachable example_lround example_idle \<and> state example_idle \<noteq> ACTIVE \<and>
   state (reevaluate example_idle) \<noteq> ACTIVE \<and>
   dispatch example_lround 6 \<lparr>rdy_inotify = [], rdy_reads = [RdEvents [key_event]]\<rparr> example_idle
     = Some (on_activity example_idle) \<and>
   state (on_activity example_idle) = ACTIVE \<and>
   (6 :: int) \<noteq> tfd example_idle \<and> 6 \<noteq> ifd example_idle \<and>
   DEBOUNCE_MS \<le> clock example_idle (nreads example_idle) - last_pulse_ms example_idle \<and>
   last_pulse_ms (on_activity example_idle) = 4000000 \<and>
   last_activity_ms (on_activity example_idle) = 4000000"
proof -
  have idle: "state example_idle \<noteq> ACTIVE" by (simp add: example_idle_fields)
  have acc: "DEBOUNCE_MS \<le> clock example_idle (nreads example_idle) - last_pulse_ms example_idle"
    by (simp add: example_idle_fields example_clock_def DEBOUNCE_MS_def)
  have d: "dispatch example_lround 6 \<lparr>rdy_inotify = [], rdy_reads = [RdEvents [key_event]]\<rparr>
             example_idle = Some (on_activity example_idle)"
    by (simp add: dispatch_def handle_input_def dev_index_by_fd_def example_idle_fields
        example_dev_fields handle_event_def key_event_def EV_SYN_def EV_KEY_def)
  have a: "state (on_activity example_idle) = ACTIVE"
    by (rule on_activity_accepted(3) [OF acc])
  from return_to_active_needs_pulse [OF reachable_example_idle idle,
      of 6 "\<lparr>rdy_inotify = [], rdy_reads = [RdEvents [key_event]]\<rparr>" "on_activity example_idle"]
    d a reachable_example_idle idle
  show ?thesis by (simp add: example_idle_fields example_clock_def)
qed

text \<open>
  C2. A pulse that arrives less than \<open>DEBOUNCE_MS\<close> (3000 ms) after the last accepted
  pulse changes nothing: the world is the same but for the clock having been read, so
  there is no state transition, no clock-mark update, no timer reschedule, no state-file
  write and no hook dispatch. A pulse that arrives later is accepted and becomes the
  last accepted pulse, and a second pulse read less than 3000 ms after it is discarded.
\<close>

theorem debounce_discards_early_pulse:
  "(clock w (nreads w) - last_pulse_ms w < DEBOUNCE_MS \<longrightarrow>
      on_activity w = w\<lparr>nreads := Suc (nreads w)\<rparr> \<and>
      state (on_activity w) = state w \<and>
      last_pulse_ms (on_activity w) = last_pulse_ms w \<and>
      last_activity_ms (on_activity w) = last_activity_ms w \<and>
      effects (on_activity w) = effects w)
   \<and> (DEBOUNCE_MS \<le> clock w (nreads w) - last_pulse_ms w \<longrightarrow>
      last_pulse_ms (on_activity w) = clock w (nreads w) \<and>
      last_activity_ms (on_activity w) = clock w (nreads w) \<and>
      state (on_activity w) = ACTIVE \<and>
      (clock w (nreads (on_activity w)) - clock w (nreads w) < DEBOUNCE_MS \<longrightarrow>
         on_activity (on_activity w) = (on_activity w)\<lparr>nreads := Suc (nreads (on_activity w))\<rparr>))"
proof (intro conjI impI)
  assume r: "clock w (nreads w) - last_pulse_ms w < DEBOUNCE_MS"
  show e: "on_activity w = w\<lparr>nreads := Suc (nreads w)\<rparr>" by (rule on_activity_rejected [OF r])
  show "state (on_activity w) = state w" "last_pulse_ms (on_activity w) = last_pulse_ms w"
    "last_activity_ms (on_activity w) = last_activity_ms w" "effects (on_activity w) = effects w"
    unfolding e by simp_all
next
  assume a: "DEBOUNCE_MS \<le> clock w (nreads w) - last_pulse_ms w"
  show p: "last_pulse_ms (on_activity w) = clock w (nreads w)"
    and "last_activity_ms (on_activity w) = clock w (nreads w)"
    and "state (on_activity w) = ACTIVE"
    using on_activity_accepted [OF a] by simp_all
  assume "clock w (nreads (on_activity w)) - clock w (nreads w) < DEBOUNCE_MS"
  then have "clock (on_activity w) (nreads (on_activity w)) - last_pulse_ms (on_activity w)
               < DEBOUNCE_MS"
    using p by simp
  from on_activity_rejected [OF this]
  show "on_activity (on_activity w) = (on_activity w)\<lparr>nreads := Suc (nreads (on_activity w))\<rparr>" .
qed

theorem debounce_discards_early_pulse_witness:
  "clock (RT0 example_clock) (nreads (RT0 example_clock)) - last_pulse_ms (RT0 example_clock)
     < DEBOUNCE_MS \<and>
   on_activity (RT0 example_clock) = (RT0 example_clock)\<lparr>nreads := Suc 0\<rparr> \<and>
   effects (on_activity (RT0 example_clock)) = [] \<and>
   DEBOUNCE_MS \<le> clock (RT0 burst_clock) (nreads (RT0 burst_clock)) - last_pulse_ms (RT0 burst_clock) \<and>
   last_pulse_ms (on_activity (RT0 burst_clock)) = 5000 \<and>
   state (on_activity (RT0 burst_clock)) = ACTIVE \<and>
   on_activity (on_activity (RT0 burst_clock)) = (on_activity (RT0 burst_clock))\<lparr>nreads := 3\<rparr>"
proof -
  have r: "clock (RT0 example_clock) (nreads (RT0 example_clock)) - last_pulse_ms (RT0 example_clock)
             < DEBOUNCE_MS"
    by (simp add: RT0_def example_clock_def DEBOUNCE_MS_def)
  have a: "DEBOUNCE_MS \<le> clock (RT0 burst_clock) (nreads (RT0 burst_clock))
             - last_pulse_ms (RT0 burst_clock)"
    by (simp add: RT0_def burst_clock_def DEBOUNCE_MS_def)
  have n: "nreads (on_activity (RT0 burst_clock)) = 2"
    using on_activity_accepted(4) [OF a] by (simp add: RT0_def)
  have c: "clock (RT0 burst_clock) (nreads (on_activity (RT0 burst_clock)))
             - clock (RT0 burst_clock) (nreads (RT0 burst_clock)) < DEBOUNCE_MS"
    unfolding n by (simp add: RT0_def burst_clock_def DEBOUNCE_MS_def)
  from debounce_discards_early_pulse [of "RT0 example_clock"] r
  have 1: "on_activity (RT0 example_clock) = (RT0 example_clock)\<lparr>nreads := Suc 0\<rparr>"
    "effects (on_activity (RT0 example_clock)) = []"
    by (simp_all add: RT0_def)
  from debounce_discards_early_pulse [of "RT0 burst_clock"] a c n
  have 2: "last_pulse_ms (on_activity (RT0 burst_clock)) = 5000"
    "state (on_activity (RT0 burst_clock)) = ACTIVE"
    "on_activity (on_activity (RT0 burst_clock)) = (on_activity (RT0 burst_clock))\<lparr>nreads := 3\<rparr>"
    by (simp_all add: RT0_def burst_clock_def)
  from r a 1 2 show ?thesis by simp
qed




text \<open>
  C4. The claim: the idle and the extended timeout loaded from the configuration are
  clamped to the range of 60 seconds to 12 hours, a configured value below 60 seconds
  giving 60 seconds and one above 12 hours giving 12 hours. The source says the same in
  its comments (\<open>clamp to 12h max\<close> in \<open>parse_pos_int\<close>, \<open>enforce minimums\<close> at the end of
  \<open>read_config_or_defaults\<close>) and does otherwise: \<open>parse_pos_int\<close> answers \<open>-1\<close> for a
  value above 12 hours, the caller takes a value only when it is at least 60, and the
  minimum enforced at the end never finds anything below 60. With \<open>idle=30\<close> the idle
  timeout is the default of 900 seconds, not 60; with \<open>idle=50000\<close> it is 900 seconds,
  not 43200; the extended timeout behaves the same way around its default of 3600.
\<close>

theorem out_of_range_timeout_not_clamped:
  "cfg_idle_s (read_config_or_defaults (Some [''idle=30'' @ [CHR 0x0A]])) = 900
   \<and> cfg_idle_s (read_config_or_defaults (Some [''idle=30'' @ [CHR 0x0A]])) \<noteq> 60
   \<and> cfg_idle_s (read_config_or_defaults (Some [''idle=50000'' @ [CHR 0x0A]])) = 900
   \<and> cfg_idle_s (read_config_or_defaults (Some [''idle=50000'' @ [CHR 0x0A]])) \<noteq> 12 * 60 * 60
   \<and> cfg_extended_s (read_config_or_defaults (Some [''extended=30'' @ [CHR 0x0A]])) = 3600
   \<and> cfg_extended_s (read_config_or_defaults (Some [''extended=50000'' @ [CHR 0x0A]])) = 3600
   \<and> parse_pos_int ''30'' = 30 \<and> parse_pos_int ''50000'' = - 1"
  by (simp add: read_config_or_defaults_def config_line_def is_blank_def rtrim_def
      is_trailing_def apply_kv_def parse_pos_int_def strtol_def isspace_c_def isdigit_c_def
      default_config_def enforce_minimums_def DEFAULT_IDLE_S_def DEFAULT_EXTENDED_S_def
      LONG_MAX_def Let_def)

text \<open>
  C5. Entering the state the machine is already in is a no-op: \<open>enter\<close> returns the
  world as it was, so the state variable is not rewritten, the state file is not
  written, no hook folder is run, and nothing else changes.
\<close>

theorem enter_current_state_is_noop: "enter (state w) w = w"
  by (simp add: enter_def)

theorem enter_current_state_is_noop_witness:
  "enter IDLE example_idle = example_idle \<and> effects (enter IDLE example_idle) = effects example_idle"
  using enter_current_state_is_noop [of example_idle] by (simp add: example_idle_fields)




text \<open>
  C7. One call of \<open>handle_input\<close> issues at most one activity pulse: what it returns is
  the world it was given with the device tables changed and \<open>on_activity\<close> applied
  once or not at all (and the device removed when the read ended in an error or end of
  file). Once the batch has pulsed, every further event is passed over without a second
  pulse, and the reads go on until the descriptor would block.
\<close>

theorem batch_pulses_at_most_once:
  "(handle_input f rs w = Some (w', rest) \<longrightarrow>
      (\<exists>u. (w' = u \<or> w' = del_dev_fd f u) \<and>
           (u = w\<lparr>devices := devices u\<rparr> \<or> u = on_activity (w\<lparr>devices := devices u\<rparr>))))
   \<and> events_loop i es (v, True) = Some (v, True)
   \<and> read_loop f i (map RdEvents bs @ RdWouldBlock # rest) (v, True) = Some (v, rest)"
proof (intro conjI impI)
  assume "handle_input f rs w = Some (w', rest)"
  from handle_input_result [OF this] obtain u p where
    "w' = u \<or> w' = del_dev_fd f u" "batch_shape w u p"
    by blast
  then show
    "\<exists>u. (w' = u \<or> w' = del_dev_fd f u) \<and>
         (u = w\<lparr>devices := devices u\<rparr> \<or> u = on_activity (w\<lparr>devices := devices u\<rparr>))"
    by (cases p) (auto simp: batch_shape_def)
next
  show "events_loop i es (v, True) = Some (v, True)" by (rule events_loop_pulsed)
  show "read_loop f i (map RdEvents bs @ RdWouldBlock # rest) (v, True) = Some (v, rest)"
    by (rule read_loop_pulsed)
qed

theorem batch_pulses_at_most_once_witness:
  "handle_input 6 [RdEvents [key_event, key_event], RdEvents [key_event], RdWouldBlock] example_world
     = Some (on_activity example_world, [])
   \<and> (\<exists>u. (on_activity example_world = u \<or> on_activity example_world = del_dev_fd 6 u) \<and>
           (u = example_world\<lparr>devices := devices u\<rparr>
            \<or> u = on_activity (example_world\<lparr>devices := devices u\<rparr>)))
   \<and> length (effects (on_activity example_world)) = Suc (length (effects example_world))"
proof -
  have h: "handle_input 6 [RdEvents [key_event, key_event], RdEvents [key_event], RdWouldBlock]
             example_world = Some (on_activity example_world, [])"
    by (simp add: handle_input_def dev_index_by_fd_def example_eval)
  have e: "length (effects (on_activity example_world)) = Suc (length (effects example_world))"
    by (simp add: on_activity_def now_ms_def example_world_fields example_world_nreads
        example_clock_def DEBOUNCE_MS_def schedule_timer_def effective_idle_ms_def
        arm_timer_ms_def Let_def)
  from batch_pulses_at_most_once
    [of 6 "[RdEvents [key_event, key_event], RdEvents [key_event], RdWouldBlock]" example_world
        "on_activity example_world" "[]"] h e
  show ?thesis by simp
qed

text \<open>
  C8. The claim: the calibration gives dead-zone 0 to a direction-pad axis, to any other
  axis of positive span the larger of the rounded product of span and fraction and the
  floor of 64, and 128 to an axis of span zero or less. The source computes the middle
  case as \<open>(int)std::lround(span * AXIS_DZ_PCT)\<close> and then raises it to the floor; the
  conversion to \<open>int\<close> is not guarded. On axis 0 of range -2147483648 to 2147483647 at
  the fraction 0.90 the rounded product is 3865470566, the conversion turns it into
  -429496730, and the dead-zone stored is the floor, 64, where the claim gives
  3865470566.
\<close>

theorem calibration_wraps_on_wide_span:
  "\<not> is_hat_abs 0 \<and> (0 :: nat) \<le> ABS_MAX
   \<and> wide_axes 0 = Some (- 2147483648, 2147483647)
   \<and> lround_090 (2147483647 - (- 2147483648)) = 3865470566
   \<and> int_cast (lround_090 (2147483647 - (- 2147483648))) = - 429496730
   \<and> abs_dz (init_abs_info lround_090 wide_axes Dev0) 0 = 64
   \<and> max (lround_090 (2147483647 - (- 2147483648))) AXIS_DZ_MIN = 3865470566
   \<and> abs_dz (init_abs_info lround_090 wide_axes Dev0) 0
       \<noteq> max (lround_090 (2147483647 - (- 2147483648))) AXIS_DZ_MIN"
  by (simp add: init_abs_info_dz calibrated_def wide_axes_def lround_090_def int_cast_def
      is_hat_abs_def ABS_HAT0X_def ABS_MAX_def AXIS_DZ_MIN_def)

text \<open>
  C9. In every world of a run that is not \<open>ACTIVE\<close>, both timeouts are at least 60
  seconds and the debounce check of \<open>on_activity\<close> passes: a pulse issued there,
  whatever the device tables hold, is accepted and takes the state to \<open>ACTIVE\<close>. So a
  pulse can be discarded by the debounce only while the state is \<open>ACTIVE\<close>.
\<close>

theorem inactive_state_accepts_every_pulse:
  assumes "reachable lround_pct w" and "state w \<noteq> ACTIVE"
  shows "60 \<le> idle_s w \<and> 60 \<le> extended_s w \<and>
         \<not> clock w (nreads w) - last_pulse_ms w < DEBOUNCE_MS \<and>
         state (on_activity (w\<lparr>devices := ds\<rparr>)) = ACTIVE \<and>
         last_pulse_ms (on_activity (w\<lparr>devices := ds\<rparr>)) = clock w (nreads w) \<and>
         on_activity (w\<lparr>devices := ds\<rparr>) \<noteq> w\<lparr>devices := ds, nreads := Suc (nreads w)\<rparr>"
proof -
  have inv: "sm_inv w" by (rule reachable_sm_inv [OF assms(1)])
  have acc: "DEBOUNCE_MS \<le> clock w (nreads w) - last_pulse_ms w"
    by (rule inactive_accepts [OF inv assms(2)])
  define v where "v = w\<lparr>devices := ds\<rparr>"
  have v: "clock v = clock w" "nreads v = nreads w" "last_pulse_ms v = last_pulse_ms w"
    "state v = state w"
    by (simp_all add: v_def)
  from acc have acc': "DEBOUNCE_MS \<le> clock v (nreads v) - last_pulse_ms v" by (simp add: v)
  have "state (on_activity v) \<noteq> state (v\<lparr>nreads := Suc (nreads w)\<rparr>)"
    using on_activity_accepted(3) [OF acc'] assms(2) by (simp add: v)
  then have "on_activity v \<noteq> v\<lparr>nreads := Suc (nreads w)\<rparr>" by metis
  with inv acc on_activity_accepted [OF acc'] show ?thesis by (simp add: sm_inv_def v v_def)
qed

theorem inactive_state_accepts_every_pulse_witness:
  "reachable example_lround example_idle \<and> state example_idle = IDLE \<and>
   idle_s example_idle = 900 \<and>
   \<not> clock example_idle (nreads example_idle) - last_pulse_ms example_idle < DEBOUNCE_MS \<and>
   state (on_activity example_idle) = ACTIVE \<and>
   last_pulse_ms (on_activity example_idle) = 4000000"
proof -
  have idle: "state example_idle \<noteq> ACTIVE" by (simp add: example_idle_fields)
  have d: "example_idle\<lparr>devices := devices example_idle\<rparr> = example_idle" by simp
  from inactive_state_accepts_every_pulse
    [OF reachable_example_idle idle, of "devices example_idle"] reachable_example_idle
  show ?thesis unfolding d by (simp add: example_idle_fields example_clock_def)
qed

text \<open>
  C10. \<open>add_dev\<close> does not look the path up: for a path that the registry already
  tracks, an add whose \<open>open\<close> and subscription succeed appends one more device with
  that path and the descriptor that \<open>open\<close> returned, so that the registry holds the
  path at least twice; the descriptor differs from those of the tracked devices whenever
  \<open>open\<close> returns one that none of them holds. A create record of the directory watch
  for that name runs exactly this add.
\<close>

theorem add_dev_appends_without_path_check:
  assumes "p \<in> path ` set (devices w)" and "0 \<le> open_fd env" and "epoll_add_ok env"
  shows "\<exists>d. devices (add_dev lround_pct env p w) = devices w @ [d]
           \<and> path d = p \<and> fd d = open_fd env
           \<and> length (filter (\<lambda>x. path x = p) (devices (add_dev lround_pct env p w)))
               = Suc (length (filter (\<lambda>x. path x = p) (devices w)))
           \<and> 2 \<le> length (filter (\<lambda>x. path x = p) (devices (add_dev lround_pct env p w)))
           \<and> (open_fd env \<notin> fd ` set (devices w) \<longrightarrow> (\<forall>x \<in> set (devices w). fd x \<noteq> fd d))
           \<and> (is_event_name n \<longrightarrow> p = INPUT_DIR @ ''/'' @ n \<longrightarrow>
                handle_inotify_event lround_pct
                  \<lparr>in_name = n, in_create = True, in_delete = False, in_env = env\<rparr> w
                = add_dev lround_pct env p w)"
proof -
  define d where "d = init_abs_info lround_pct (absinfo env) (Dev0\<lparr>fd := open_fd env, path := p\<rparr>)"
  have dv: "devices (add_dev lround_pct env p w) = devices w @ [d]"
    using assms(2,3) by (simp add: add_dev_def Let_def d_def)
  have pd: "path d = p" "fd d = open_fd env" by (simp_all add: d_def init_abs_info_frame)
  from assms(1) have "filter (\<lambda>x. path x = p) (devices w) \<noteq> []"
    by (auto simp: filter_empty_conv)
  then have "1 \<le> length (filter (\<lambda>x. path x = p) (devices w))"
    by (cases "filter (\<lambda>x. path x = p) (devices w)") simp_all
  moreover have "open_fd env \<notin> fd ` set (devices w) \<longrightarrow> (\<forall>x \<in> set (devices w). fd x \<noteq> fd d)"
    using pd by (metis imageI)
  moreover have "is_event_name n \<longrightarrow> p = INPUT_DIR @ ''/'' @ n \<longrightarrow>
      handle_inotify_event lround_pct
        \<lparr>in_name = n, in_create = True, in_delete = False, in_env = env\<rparr> w
      = add_dev lround_pct env p w"
    by (auto simp: handle_inotify_event_def Let_def is_event_name_def)
  ultimately show ?thesis using dv pd by (intro exI [of _ d]) simp
qed

theorem add_dev_appends_without_path_check_witness:
  "''/dev/input/event0'' \<in> path ` set (devices example_world)
   \<and> map path (devices (add_dev example_lround (example_env\<lparr>open_fd := 7\<rparr>)
                          ''/dev/input/event0'' example_world))
       = [''/dev/input/event0'', ''/dev/input/event0'']
   \<and> map fd (devices (add_dev example_lround (example_env\<lparr>open_fd := 7\<rparr>)
                        ''/dev/input/event0'' example_world))
       = [6, 7]
   \<and> handle_inotify_event example_lround
        \<lparr>in_name = ''event0'', in_create = True, in_delete = False,
         in_env = example_env\<lparr>open_fd := 7\<rparr>\<rparr> example_world
       = add_dev example_lround (example_env\<lparr>open_fd := 7\<rparr>) ''/dev/input/event0'' example_world"
proof -
  have t: "''/dev/input/event0'' \<in> path ` set (devices example_world)"
    by (simp add: example_world_devices example_dev_fields)
  have o: "0 \<le> open_fd (example_env\<lparr>open_fd := 7\<rparr>)" "epoll_add_ok (example_env\<lparr>open_fd := 7\<rparr>)"
    by (simp_all add: example_env_def)
  have n: "is_event_name ''event0''"
    by (simp add: is_event_name_def isdigit_c_def)
  have q: "''/dev/input/event0'' = INPUT_DIR @ ''/'' @ ''event0''"
    by (simp add: INPUT_DIR_def)
  from add_dev_appends_without_path_check
    [OF t o, where lround_pct = example_lround and n = "''event0''"] n q
  obtain d where
    "devices (add_dev example_lround (example_env\<lparr>open_fd := 7\<rparr>) ''/dev/input/event0''
       example_world) = devices example_world @ [d]"
    "path d = ''/dev/input/event0''" "fd d = open_fd (example_env\<lparr>open_fd := 7\<rparr>)"
    "handle_inotify_event example_lround
        \<lparr>in_name = ''event0'', in_create = True, in_delete = False,
         in_env = example_env\<lparr>open_fd := 7\<rparr>\<rparr> example_world
       = add_dev example_lround (example_env\<lparr>open_fd := 7\<rparr>) ''/dev/input/event0'' example_world"
    by blast
  with t show ?thesis by (simp add: example_world_devices example_dev_fields)
qed

end
